theory Spec2Isabelle
  imports Complex_Main
begin

section \<open>Image-analysis backend: upload validation, inference call, response normalisation\<close>

text \<open>
  The repository holds two Express servers. \<^verbatim>\<open>server.js\<close> is the object-detection
  variant (route \<^verbatim>\<open>/upload\<close>, OpenAI SDK, JSON extraction of the model output); the
  second file is the free-form variant (route \<^verbatim>\<open>/analyze\<close>, axios, error-to-status
  mapping, temporary-file cleanup). Both are embedded below, each function under the name
  it has in the source; where the two files use the same name, the \<^verbatim>\<open>/upload\<close> one
  carries the suffix \<open>_upload\<close> and the \<^verbatim>\<open>/analyze\<close> one the suffix \<open>_analyze\<close>.

  JavaScript strings are modelled as \<^typ>\<open>string\<close>, exceptions as the left summand of a
  sum type, \<^verbatim>\<open>undefined\<close> as a value of its own.
\<close>

subsection \<open>JSON values and the platform's \<^verbatim>\<open>JSON.parse\<close>\<close>

text \<open>
  \<^verbatim>\<open>JSON.parse\<close> is a built-in of the platform, not code of the repository. It is
  modelled by a reference parser for the JSON grammar (ECMA-404): a lexer, then a pushdown
  parser over the tokens. A number is kept as the exact value of its decimal literal (the
  platform rounds it to the nearest double; nothing below depends on the rounding), an
  object as its members in source order, a repeated key keeping its first position and its
  last value. Characters are 8-bit, so a \<^verbatim>\<open>\uXXXX\<close> escape keeps its low byte.
\<close>

datatype json =
    JNull
  | JBool bool
  | JNumber rat
  | JString string
  | JArray "json list"
  | JObject "(string \<times> json) list"

text \<open>
  A thrown error object, with the fields the handlers read: \<^verbatim>\<open>error.message\<close>,
  \<^verbatim>\<open>error.code\<close> and \<^verbatim>\<open>error.response?.status\<close> (\<open>None\<close> where the field
  is absent).
\<close>

record js_error =
  message :: string
  code :: "string option"
  response_status :: "nat option"

datatype token =
    LBrack | RBrack | LBrace | RBrace | Comma | Colon
  | TStr string
  | TVal json

abbreviation dquote :: char where "dquote \<equiv> CHR 0x22"
abbreviation backslash :: char where "backslash \<equiv> CHR 0x5C"
abbreviation newline :: char where "newline \<equiv> CHR 0x0A"
abbreviation backtick :: char where "backtick \<equiv> CHR 0x60"

definition charCode :: "char \<Rightarrow> nat" where
  "charCode c = of_char c"

definition digit_val :: "char \<Rightarrow> nat" where
  "digit_val c = charCode c - charCode CHR ''0''"

definition is_json_ws :: "char \<Rightarrow> bool" where
  "is_json_ws c = (c = CHR '' '' \<or> c = CHR 0x09 \<or> c = CHR 0x0A \<or> c = CHR 0x0D)"

definition in_range :: "char \<Rightarrow> char \<Rightarrow> char \<Rightarrow> bool" where
  "in_range lo hi c = (charCode lo \<le> charCode c \<and> charCode c \<le> charCode hi)"

definition is_digit :: "char \<Rightarrow> bool" where
  "is_digit c = in_range CHR ''0'' CHR ''9'' c"

definition hex_val :: "char \<Rightarrow> nat option" where
  "hex_val c =
     (if in_range CHR ''0'' CHR ''9'' c then Some (charCode c - charCode CHR ''0'')
      else if in_range CHR ''a'' CHR ''f'' c then Some (charCode c - charCode CHR ''a'' + 10)
      else if in_range CHR ''A'' CHR ''F'' c then Some (charCode c - charCode CHR ''A'' + 10)
      else None)"

definition unescape :: "char \<Rightarrow> char option" where
  "unescape e =
     (if e = dquote then Some dquote
      else if e = backslash then Some backslash
      else if e = CHR ''/'' then Some CHR ''/''
      else if e = CHR ''b'' then Some (CHR 0x08)
      else if e = CHR ''f'' then Some (CHR 0x0C)
      else if e = CHR ''n'' then Some (CHR 0x0A)
      else if e = CHR ''r'' then Some (CHR 0x0D)
      else if e = CHR ''t'' then Some (CHR 0x09)
      else None)"

definition startsWith :: "string \<Rightarrow> string \<Rightarrow> bool" where
  "startsWith s p = (take (length p) s = p)"

definition hex4 :: "char \<Rightarrow> char \<Rightarrow> char \<Rightarrow> char \<Rightarrow> char option" where
  "hex4 h1 h2 h3 h4 =
     (case hex_val h1 of None \<Rightarrow> None | Some a \<Rightarrow>
      (case hex_val h2 of None \<Rightarrow> None | Some b \<Rightarrow>
       (case hex_val h3 of None \<Rightarrow> None | Some c \<Rightarrow>
        (case hex_val h4 of None \<Rightarrow> None | Some d \<Rightarrow>
           Some (char_of (((a * 16 + b) * 16 + c) * 16 + d))))))"

definition cons_to :: "char \<Rightarrow> (string \<times> string) option \<Rightarrow> (string \<times> string) option" where
  "cons_to c r = (case r of None \<Rightarrow> None | Some (s, rest) \<Rightarrow> Some (c # s, rest))"

text \<open>The characters of a string literal after its opening quote, and what follows it.\<close>

fun lex_string :: "string \<Rightarrow> (string \<times> string) option" where
  "lex_string [] = None"
| "lex_string (c # cs) =
     (if c = dquote then Some ([], cs)
      else if c = backslash then
        (case cs of
           [] \<Rightarrow> None
         | e # r \<Rightarrow>
             (if e = CHR ''u'' then
                (case r of
                   h1 # h2 # h3 # h4 # r' \<Rightarrow>
                     (case hex4 h1 h2 h3 h4 of
                        Some x \<Rightarrow> cons_to x (lex_string r')
                      | None \<Rightarrow> None)
                 | _ \<Rightarrow> None)
              else
                (case unescape e of
                   None \<Rightarrow> None
                 | Some x \<Rightarrow> cons_to x (lex_string r))))
      else if charCode c < 32 then None
      else cons_to c (lex_string cs))"

definition nat_of_digits :: "string \<Rightarrow> nat" where
  "nat_of_digits ds = foldl (\<lambda>n c. 10 * n + digit_val c) 0 ds"

definition scale10 :: "rat \<Rightarrow> int \<Rightarrow> rat" where
  "scale10 x e = (if 0 \<le> e then x * 10 ^ nat e else x / 10 ^ nat (- e))"

text \<open>
  A number literal: \<^verbatim>\<open>-? (0 | [1-9][0-9]*) (. [0-9]+)? ([eE] [+-]? [0-9]+)?\<close>,
  read from the start of the text; the result is its value and what follows it.
\<close>

definition lex_int_part :: "string \<Rightarrow> (string \<times> string) option" where
  "lex_int_part s =
     (case s of
        [] \<Rightarrow> None
      | c # cs \<Rightarrow>
          (if c = CHR ''0'' then Some ([c], cs)
           else if is_digit c then Some (takeWhile is_digit s, dropWhile is_digit s)
           else None))"

definition lex_frac_part :: "string \<Rightarrow> (string \<times> string) option" where
  "lex_frac_part s =
     (case s of
        c # cs \<Rightarrow>
          (if c = CHR ''.'' then
             (if takeWhile is_digit cs = [] then None
              else Some (takeWhile is_digit cs, dropWhile is_digit cs))
           else Some ([], s))
      | [] \<Rightarrow> Some ([], s))"

definition lex_exp_digits :: "bool \<Rightarrow> string \<Rightarrow> (int \<times> string) option" where
  "lex_exp_digits neg s =
     (if takeWhile is_digit s = [] then None
      else Some ((if neg then - int (nat_of_digits (takeWhile is_digit s))
                  else int (nat_of_digits (takeWhile is_digit s))),
                 dropWhile is_digit s))"

definition lex_exp_part :: "string \<Rightarrow> (int \<times> string) option" where
  "lex_exp_part s =
     (case s of
        c # cs \<Rightarrow>
          (if c = CHR ''e'' \<or> c = CHR ''E'' then
             (case cs of
                d # ds \<Rightarrow>
                  (if d = CHR ''-'' then lex_exp_digits True ds
                   else if d = CHR ''+'' then lex_exp_digits False ds
                   else lex_exp_digits False cs)
              | [] \<Rightarrow> None)
           else Some (0, s))
      | [] \<Rightarrow> Some (0, s))"

definition lex_unsigned :: "string \<Rightarrow> (rat \<times> string) option" where
  "lex_unsigned s =
     (case lex_int_part s of
        None \<Rightarrow> None
      | Some (ip, s1) \<Rightarrow>
          (case lex_frac_part s1 of
             None \<Rightarrow> None
           | Some (fp, s2) \<Rightarrow>
               (case lex_exp_part s2 of
                  None \<Rightarrow> None
                | Some (ex, s3) \<Rightarrow>
                    Some (scale10 (of_nat (nat_of_digits (ip @ fp))) (ex - int (length fp)), s3))))"

definition lex_number :: "string \<Rightarrow> (rat \<times> string) option" where
  "lex_number s =
     (case s of
        c # cs \<Rightarrow>
          (if c = CHR ''-'' then map_option (\<lambda>(q, rest). (- q, rest)) (lex_unsigned cs)
           else lex_unsigned s)
      | [] \<Rightarrow> None)"


lemma cons_to_Some:
  "cons_to c r = Some (s, rest) \<Longrightarrow> \<exists>s'. r = Some (s', rest)"
  by (cases r) (auto simp: cons_to_def)

lemma lex_string_length:
  "lex_string cs = Some (s, rest) \<Longrightarrow> length rest \<le> length cs"
proof (induction cs arbitrary: s rest rule: length_induct)
  case (1 cs)
  show ?case
  proof (cases cs)
    case Nil
    with "1.prems" show ?thesis by simp
  next
    case (Cons c cs')
    consider (quote) "c = dquote"
      | (plain) "c \<noteq> dquote" "c \<noteq> backslash"
      | (esc) "c \<noteq> dquote" "c = backslash"
      by blast
    then show ?thesis
    proof cases
      case quote
      with "1.prems" Cons show ?thesis by simp
    next
      case plain
      with "1.prems" Cons obtain s' where "lex_string cs' = Some (s', rest)"
        by (auto split: if_splits dest: cons_to_Some)
      with "1.IH" Cons have "length rest \<le> length cs'" by simp
      with Cons show ?thesis by simp
    next
      case esc
      with "1.prems" Cons obtain e r where r: "cs' = e # r"
        by (cases cs') auto
      show ?thesis
      proof (cases "e = CHR ''u''")
        case True
        with "1.prems" Cons esc r obtain h1 h2 h3 h4 r' where
          r': "r = h1 # h2 # h3 # h4 # r'"
          by (auto split: list.splits)
        with "1.prems" Cons esc r True obtain s' where
          "lex_string r' = Some (s', rest)"
          by (auto split: option.splits dest: cons_to_Some)
        with "1.IH" Cons r r' have "length rest \<le> length r'" by simp
        with Cons r r' show ?thesis by simp
      next
        case False
        with "1.prems" Cons esc r obtain s' where
          "lex_string r = Some (s', rest)"
          by (auto split: option.splits dest: cons_to_Some)
        with "1.IH" Cons r have "length rest \<le> length r" by simp
        with Cons r show ?thesis by simp
      qed
    qed
  qed
qed

lemma lex_int_part_length:
  "lex_int_part s = Some (ip, rest) \<Longrightarrow> length rest < length s"
  by (auto simp: lex_int_part_def less_Suc_eq_le length_dropWhile_le
      split: list.splits if_splits)

lemma lex_frac_part_length:
  "lex_frac_part s = Some (fp, rest) \<Longrightarrow> length rest \<le> length s"
  by (auto simp: lex_frac_part_def le_SucI length_dropWhile_le
      split: list.splits if_splits)

lemma lex_exp_digits_length:
  "lex_exp_digits neg s = Some (ex, rest) \<Longrightarrow> length rest \<le> length s"
  by (auto simp: lex_exp_digits_def length_dropWhile_le split: if_splits)

lemma lex_exp_part_length:
  "lex_exp_part s = Some (ex, rest) \<Longrightarrow> length rest \<le> length s"
  by (auto simp: lex_exp_part_def le_SucI
      dest!: lex_exp_digits_length split: list.splits if_splits)

lemma lex_unsigned_length:
  "lex_unsigned s = Some (q, rest) \<Longrightarrow> length rest < length s"
  by (auto simp: lex_unsigned_def split: option.splits prod.splits
      dest!: lex_int_part_length lex_frac_part_length lex_exp_part_length)

lemma lex_number_length:
  "lex_number s = Some (q, rest) \<Longrightarrow> length rest < length s"
  by (auto simp: lex_number_def less_SucI split: list.splits if_splits
      dest!: lex_unsigned_length)

text \<open>The lexer: the tokens of a text, or \<open>None\<close> where no token starts.\<close>

function tokens :: "string \<Rightarrow> token list option" where
  "tokens [] = Some []"
| "tokens (c # cs) =
     (if is_json_ws c then tokens cs
      else if c = CHR ''['' then map_option (Cons LBrack) (tokens cs)
      else if c = CHR '']'' then map_option (Cons RBrack) (tokens cs)
      else if c = CHR ''{'' then map_option (Cons LBrace) (tokens cs)
      else if c = CHR ''}'' then map_option (Cons RBrace) (tokens cs)
      else if c = CHR '','' then map_option (Cons Comma) (tokens cs)
      else if c = CHR '':'' then map_option (Cons Colon) (tokens cs)
      else if c = dquote then
        (case lex_string cs of
           None \<Rightarrow> None
         | Some (s, rest) \<Rightarrow> map_option (Cons (TStr s)) (tokens rest))
      else if c = CHR ''-'' \<or> is_digit c then
        (case lex_number (c # cs) of
           None \<Rightarrow> None
         | Some (q, rest) \<Rightarrow> map_option (Cons (TVal (JNumber q))) (tokens rest))
      else if startsWith (c # cs) ''true'' then
        map_option (Cons (TVal (JBool True))) (tokens (drop 3 cs))
      else if startsWith (c # cs) ''false'' then
        map_option (Cons (TVal (JBool False))) (tokens (drop 4 cs))
      else if startsWith (c # cs) ''null'' then
        map_option (Cons (TVal JNull)) (tokens (drop 3 cs))
      else None)"
  by pat_completeness auto
termination
  apply (relation "measure length")
  apply (simp_all only: in_measure length_Cons lessI wf_measure length_drop less_Suc_eq_le diff_le_self)
  apply (metis lex_string_length)
  apply (metis lex_number_length length_Cons less_Suc_eq_le)
  done

subsubsection \<open>The parser: a pushdown automaton over the tokens\<close>

datatype frame =
    FArr "json list"
  | FObj "(string \<times> json) list"
  | FMem "(string \<times> json) list" string

datatype pstate =
    PValue bool
  | PKey bool
  | PColon
  | PSep
  | PDone json

text \<open>
  \<open>FArr es\<close>: inside an array whose elements so far are \<open>es\<close>, last first;
  \<open>FObj ms\<close>: inside an object with members \<open>ms\<close>; \<open>FMem ms k\<close>: the same, the
  value of key \<open>k\<close> being read. \<open>PValue b\<close> expects a value (\<open>b\<close>: right after
  \<^verbatim>\<open>[\<close>, where \<^verbatim>\<open>]\<close> may close the empty array), \<open>PKey b\<close> a key (\<open>b\<close>: right
  after \<^verbatim>\<open>{\<close>), \<open>PColon\<close> the colon after a key, \<open>PSep\<close> a comma or a closing
  bracket, \<open>PDone v\<close> the end of the text.
\<close>

fun obj_put :: "string \<Rightarrow> json \<Rightarrow> (string \<times> json) list \<Rightarrow> (string \<times> json) list" where
  "obj_put k v [] = [(k, v)]"
| "obj_put k v ((k', v') # ms) =
     (if k = k' then (k, v) # ms else (k', v') # obj_put k v ms)"

fun deliver :: "json \<Rightarrow> frame list \<Rightarrow> (pstate \<times> frame list) option" where
  "deliver v [] = Some (PDone v, [])"
| "deliver v (FArr es # stk) = Some (PSep, FArr (v # es) # stk)"
| "deliver v (FMem ms k # stk) = Some (PSep, FObj (obj_put k v ms) # stk)"
| "deliver v (FObj ms # stk) = None"

fun close_array :: "frame list \<Rightarrow> (pstate \<times> frame list) option" where
  "close_array (FArr es # stk) = deliver (JArray (rev es)) stk"
| "close_array _ = None"

fun close_object :: "frame list \<Rightarrow> (pstate \<times> frame list) option" where
  "close_object (FObj ms # stk) = deliver (JObject ms) stk"
| "close_object _ = None"

fun open_member :: "string \<Rightarrow> frame list \<Rightarrow> (pstate \<times> frame list) option" where
  "open_member k (FObj ms # stk) = Some (PColon, FMem ms k # stk)"
| "open_member k _ = None"

fun after_comma :: "frame list \<Rightarrow> (pstate \<times> frame list) option" where
  "after_comma (FArr es # stk) = Some (PValue False, FArr es # stk)"
| "after_comma (FObj ms # stk) = Some (PKey False, FObj ms # stk)"
| "after_comma _ = None"

fun pstep :: "pstate \<Rightarrow> frame list \<Rightarrow> token \<Rightarrow> (pstate \<times> frame list) option" where
  "pstep (PValue b) stk t =
     (case t of
        TVal v \<Rightarrow> deliver v stk
      | TStr s \<Rightarrow> deliver (JString s) stk
      | LBrack \<Rightarrow> Some (PValue True, FArr [] # stk)
      | LBrace \<Rightarrow> Some (PKey True, FObj [] # stk)
      | RBrack \<Rightarrow> (if b then close_array stk else None)
      | _ \<Rightarrow> None)"
| "pstep (PKey b) stk t =
     (case t of
        TStr k \<Rightarrow> open_member k stk
      | RBrace \<Rightarrow> (if b then close_object stk else None)
      | _ \<Rightarrow> None)"
| "pstep PColon stk t = (case t of Colon \<Rightarrow> Some (PValue False, stk) | _ \<Rightarrow> None)"
| "pstep PSep stk t =
     (case t of
        Comma \<Rightarrow> after_comma stk
      | RBrack \<Rightarrow> close_array stk
      | RBrace \<Rightarrow> close_object stk
      | _ \<Rightarrow> None)"
| "pstep (PDone v) stk t = None"

fun run :: "pstate \<Rightarrow> frame list \<Rightarrow> token list \<Rightarrow> json option" where
  "run st stk [] = (case st of PDone v \<Rightarrow> Some v | _ \<Rightarrow> None)"
| "run st stk (t # ts) =
     (case pstep st stk t of
        None \<Rightarrow> None
      | Some (st', stk') \<Rightarrow> run st' stk' ts)"

definition SyntaxError :: js_error where
  "SyntaxError = \<lparr> message = ''Unexpected token in JSON'', code = None, response_status = None \<rparr>"

definition JSON_parse :: "string \<Rightarrow> js_error + json" where
  "JSON_parse text =
     (case tokens text of
        None \<Rightarrow> Inl SyntaxError
      | Some ts \<Rightarrow>
          (case run (PValue False) [] ts of
             None \<Rightarrow> Inl SyntaxError
           | Some v \<Rightarrow> Inr v))"


subsection \<open>String built-ins used by the servers\<close>

text \<open>
  \<^verbatim>\<open>String.prototype.trim\<close> removes white space and line terminators at both ends;
  among 8-bit characters these are TAB, LF, VT, FF, CR, SPACE and NBSP.
\<close>

definition is_js_space :: "char \<Rightarrow> bool" where
  "is_js_space c =
     (c = CHR 0x09 \<or> c = CHR 0x0A \<or> c = CHR 0x0B \<or> c = CHR 0x0C \<or> c = CHR 0x0D
      \<or> c = CHR 0x20 \<or> c = CHR 0xA0)"

definition trim :: "string \<Rightarrow> string" where
  "trim s = rev (dropWhile is_js_space (rev (dropWhile is_js_space s)))"

definition lower_char :: "char \<Rightarrow> char" where
  "lower_char c =
     (if in_range CHR ''A'' CHR ''Z'' c
         \<or> in_range (CHR 0xC0) (CHR 0xD6) c \<or> in_range (CHR 0xD8) (CHR 0xDE) c
      then char_of (charCode c + 32) else c)"

definition toLowerCase :: "string \<Rightarrow> string" where
  "toLowerCase s = map lower_char s"

fun js_includes :: "string \<Rightarrow> string \<Rightarrow> bool" where
  "js_includes [] p = (p = [])"
| "js_includes (c # cs) p = (startsWith (c # cs) p \<or> js_includes cs p)"

definition endsWith :: "string \<Rightarrow> string \<Rightarrow> bool" where
  "endsWith s p = startsWith (rev s) (rev p)"

subsection \<open>\<^verbatim>\<open>server.js\<close>: \<^verbatim>\<open>extractJsonFromResponse\<close>\<close>

text \<open>
  \<^verbatim>\<open>text.replace(/```json\n|\n```|```/g, '')\<close>: scanning from the left, at each
  position the first alternative that matches is deleted, and the scan goes on after it.
\<close>

function replace_fences :: "string \<Rightarrow> string" where
  "replace_fences [] = []"
| "replace_fences (c # cs) =
     (if startsWith (c # cs) [backtick, backtick, backtick, CHR ''j'', CHR ''s'', CHR ''o'', CHR ''n'', newline]
        then replace_fences (drop 7 cs)
      else if startsWith (c # cs) [newline, backtick, backtick, backtick]
        then replace_fences (drop 3 cs)
      else if startsWith (c # cs) [backtick, backtick, backtick]
        then replace_fences (drop 2 cs)
      else c # replace_fences cs)"
  by pat_completeness auto
termination
  by (relation "measure length") (simp_all add: less_Suc_eq_le)

text \<open>
  \<^verbatim>\<open>text.match(/\[[\s\S]*\]/)\<close>: the match starts at the first \<^verbatim>\<open>[\<close> and, the star
  being greedy over every character, ends at the last \<^verbatim>\<open>]\<close> after it; there is no
  match when no \<^verbatim>\<open>]\<close> follows the first \<^verbatim>\<open>[\<close>. The result is \<^verbatim>\<open>match[0]\<close>.
\<close>

definition match_array :: "string \<Rightarrow> string option" where
  "match_array text =
     (case dropWhile (\<lambda>c. c \<noteq> CHR ''['') text of
        [] \<Rightarrow> None
      | b # body \<Rightarrow>
          (if CHR '']'' \<in> set body
           then Some (b # rev (dropWhile (\<lambda>c. c \<noteq> CHR '']'') (rev body)))
           else None))"

text \<open>What a JavaScript function hands back: \<^verbatim>\<open>undefined\<close> or a JSON value.\<close>

datatype js_value = Undefined | Json json

definition error_detection :: "string \<Rightarrow> json" where
  "error_detection l = JArray [JObject [(''label'', JString l), (''confidence'', JNumber 0)]]"

definition extractJsonFromResponse :: "string \<Rightarrow> js_error + js_value" where
  "extractJsonFromResponse text =
     (case JSON_parse text of
        Inr v \<Rightarrow> Inr (Json v)
      | Inl e \<Rightarrow>
          (case JSON_parse (trim (replace_fences text)) of
             Inr v \<Rightarrow> Inr (Json v)
           | Inl e2 \<Rightarrow>
               (case match_array text of
                  Some m \<Rightarrow>
                    (case JSON_parse m of
                       Inr v \<Rightarrow> Inr (Json v)
                     | Inl e3 \<Rightarrow> Inr (Json (error_detection ''Error parsing objects'')))
                | None \<Rightarrow> Inr Undefined)))"


subsection \<open>Requests, responses and the world outside\<close>

text \<open>
  \<^verbatim>\<open>req.file\<close> as multer's disk storage fills it in; \<open>path\<close> is where the upload
  was stored on the server.
\<close>

record multer_file =
  fieldname :: string
  originalname :: string
  encoding :: string
  mimetype :: string
  destination :: string
  filename :: string
  path :: string
  file_size :: nat

text \<open>\<^verbatim>\<open>req.file\<close> (\<open>None\<close>: undefined) and \<^verbatim>\<open>req.body.question\<close>.\<close>

record request =
  req_file :: "multer_file option"
  req_question :: "string option"

text \<open>
  The file system maps a path to the content stored there. \<open>events\<close> lists, in the order
  they happen, the responses sent and the calls of \<^verbatim>\<open>fs.unlink\<close>.
\<close>

datatype event = Responded nat | UnlinkCalled string

record world =
  files :: "string \<Rightarrow> string option"
  events :: "event list"

text \<open>
  What the servers read from outside. \<open>openai_create\<close> is the awaited SDK call of
  \<^verbatim>\<open>server.js\<close> together with the read of \<^verbatim>\<open>response.choices[0].message.content\<close>,
  as a function of the image URL: the content, or the error thrown. \<open>axios_post\<close> is the
  awaited HTTP call of the \<^verbatim>\<open>/analyze\<close> server with the read of
  \<^verbatim>\<open>response.data.choices[0].message.content\<close>, as a function of the question, the
  image URL and the \<^verbatim>\<open>timeout\<close> option in milliseconds. \<open>now\<close> is
  \<^verbatim>\<open>new Date().toISOString()\<close>.
\<close>

record environment =
  OPENAI_API_KEY :: "string option"
  openai_create :: "string \<Rightarrow> js_error + string"
  axios_post :: "string \<Rightarrow> string \<Rightarrow> nat \<Rightarrow> js_error + js_value"
  now :: string

record 'b http_response =
  statusCode :: nat
  body :: 'b

definition new_Error :: "string \<Rightarrow> js_error" where
  "new_Error msg = \<lparr> message = msg, code = None, response_status = None \<rparr>"

definition respond :: "nat \<Rightarrow> 'b \<Rightarrow> world \<Rightarrow> 'b http_response \<times> world" where
  "respond st b w = (\<lparr> statusCode = st, body = b \<rparr>, w\<lparr> events := events w @ [Responded st] \<rparr>)"

subsubsection \<open>\<^verbatim>\<open>fs.readFile\<close>, \<^verbatim>\<open>fs.unlink\<close> and base64\<close>

text \<open>
  The platform's error for a missing file names the system call and puts the path between
  single quotes: \<^verbatim>\<open>ENOENT: no such file or directory, open 'uploads/1.png'\<close>.
\<close>

abbreviation squote :: char where "squote \<equiv> CHR 0x27"

definition ENOENT :: "string \<Rightarrow> string \<Rightarrow> js_error" where
  "ENOENT syscall p =
     \<lparr> message = ''ENOENT: no such file or directory, '' @ syscall @ '' '' @ [squote] @ p @ [squote],
       code = Some ''ENOENT'', response_status = None \<rparr>"

definition readFile :: "world \<Rightarrow> string \<Rightarrow> js_error + string" where
  "readFile w p =
     (case files w p of
        None \<Rightarrow> Inl (ENOENT ''open'' p)
      | Some bytes \<Rightarrow> Inr bytes)"

definition unlink :: "world \<Rightarrow> string \<Rightarrow> js_error + world" where
  "unlink w p =
     (case files w p of
        None \<Rightarrow> Inl (ENOENT ''unlink'' p)
      | Some bytes \<Rightarrow> Inr (w\<lparr> files := (files w)(p := None) \<rparr>))"

definition b64_char :: "nat \<Rightarrow> char" where
  "b64_char n =
     ''ABCDEFGHIJKLMNOPQRSTUVWXYZabcdefghijklmnopqrstuvwxyz0123456789+/'' ! (n mod 64)"

fun base64 :: "string \<Rightarrow> string" where
  "base64 (a # b # c # rest) =
     (let n = (charCode a * 256 + charCode b) * 256 + charCode c
      in b64_char (n div 262144) # b64_char (n div 4096) # b64_char (n div 64) # b64_char n
         # base64 rest)"
| "base64 [a, b] =
     (let n = (charCode a * 256 + charCode b) * 4
      in [b64_char (n div 4096), b64_char (n div 64), b64_char n, CHR ''=''])"
| "base64 [a] =
     (let n = charCode a * 16
      in [b64_char (n div 64), b64_char n, CHR ''='', CHR ''=''])"
| "base64 [] = []"

subsection \<open>\<^verbatim>\<open>server.js\<close>: the \<^verbatim>\<open>/upload\<close> server\<close>

text \<open>
  \<^verbatim>\<open>fileFilter\<close>: the upload is refused unless
  \<^verbatim>\<open>file.originalname.match(/\.(jpg|jpeg|png|gif)$/i)\<close>. \<open>Inr True\<close> is
  \<^verbatim>\<open>cb(null, true)\<close>, \<open>Inl e\<close> is \<^verbatim>\<open>cb(e, false)\<close>.
\<close>

definition matches_image_name :: "string \<Rightarrow> bool" where
  "matches_image_name name =
     (endsWith (toLowerCase name) ''.jpg'' \<or> endsWith (toLowerCase name) ''.jpeg''
      \<or> endsWith (toLowerCase name) ''.png'' \<or> endsWith (toLowerCase name) ''.gif'')"

definition fileFilter_upload :: "multer_file \<Rightarrow> js_error + bool" where
  "fileFilter_upload f =
     (if \<not> matches_image_name (originalname f)
      then Inl (new_Error ''Only image files are allowed!'')
      else Inr True)"

definition encodeImage_upload :: "world \<Rightarrow> string \<Rightarrow> js_error + string" where
  "encodeImage_upload w imagePath =
     (case readFile w imagePath of
        Inl e \<Rightarrow> Inl e
      | Inr img \<Rightarrow> Inr (base64 img))"

text \<open>
  \<^verbatim>\<open>analyzeImage\<close>: one \<^verbatim>\<open>try\<close> around the read, the call and the extraction; its
  \<^verbatim>\<open>catch\<close> returns a list of one detection labelled with the error's message.
\<close>

definition analyzeImage :: "environment \<Rightarrow> world \<Rightarrow> string \<Rightarrow> js_error + js_value" where
  "analyzeImage env w imagePath =
     (case
        (case encodeImage_upload w imagePath of
           Inl e \<Rightarrow> Inl e
         | Inr base64Image \<Rightarrow>
             (case openai_create env (''data:image/jpeg;base64,'' @ base64Image) of
                Inl e \<Rightarrow> Inl e
              | Inr content \<Rightarrow> extractJsonFromResponse content))
      of
        Inr detectedObjects \<Rightarrow> Inr detectedObjects
      | Inl error \<Rightarrow> Inr (Json (error_detection (''Error: '' @ message error))))"

text \<open>
  The three bodies the \<^verbatim>\<open>/upload\<close> route sends: \<^verbatim>\<open>{error}\<close>,
  \<^verbatim>\<open>{message, file, objects}\<close> and \<^verbatim>\<open>{error, objects}\<close>.
\<close>

datatype upload_body =
    NoFile string
  | Analyzed string multer_file js_value
  | Failed string json

definition upload_route ::
  "environment \<Rightarrow> request \<Rightarrow> world \<Rightarrow> upload_body http_response \<times> world" where
  "upload_route env req w =
     (case req_file req of
        None \<Rightarrow> respond 400 (NoFile ''No file uploaded'') w
      | Some f \<Rightarrow>
          (case analyzeImage env w (path f) of
             Inr objects \<Rightarrow>
               respond 200 (Analyzed ''File uploaded and analyzed successfully'' f objects) w
           | Inl error \<Rightarrow>
               respond 500
                 (Failed (message error) (error_detection (''Error: '' @ message error))) w))"

subsection \<open>The \<^verbatim>\<open>/analyze\<close> server\<close>

text \<open>
  \<^verbatim>\<open>path.extname\<close> of the platform (POSIX flavour): the last component of the path,
  trailing slashes dropped, from its last dot on; empty when the component has no dot,
  starts with its only dot, or is \<^verbatim>\<open>..\<close>.
\<close>

definition last_component :: "string \<Rightarrow> string" where
  "last_component p =
     rev (takeWhile (\<lambda>c. c \<noteq> CHR ''/'') (dropWhile (\<lambda>c. c = CHR ''/'') (rev p)))"

definition path_extname :: "string \<Rightarrow> string" where
  "path_extname p =
     (let comp = last_component p;
          after_dot = rev (takeWhile (\<lambda>c. c \<noteq> CHR ''.'') (rev comp))
      in if CHR ''.'' \<notin> set comp then []
         else if length comp = Suc (length after_dot) then []
         else if comp = ''..'' then []
         else CHR ''.'' # after_dot)"

definition allowedMimeTypes :: "string list" where
  "allowedMimeTypes = [''image/jpeg'', ''image/jpg'', ''image/png'', ''image/gif'']"

definition allowedExtensions :: "string list" where
  "allowedExtensions = [''.jpeg'', ''.jpg'', ''.png'', ''.gif'']"

definition normalizedMimeType :: "multer_file \<Rightarrow> string" where
  "normalizedMimeType f =
     (if mimetype f = ''application/octet-stream''
      then ''image/'' @ drop 1 (toLowerCase (path_extname (originalname f)))
      else mimetype f)"

definition extension :: "multer_file \<Rightarrow> string" where
  "extension f = toLowerCase (path_extname (originalname f))"

definition isValidMimeType :: "multer_file \<Rightarrow> bool" where
  "isValidMimeType f = (toLowerCase (normalizedMimeType f) \<in> set allowedMimeTypes)"

definition isValidExtension :: "multer_file \<Rightarrow> bool" where
  "isValidExtension f = (extension f \<in> set allowedExtensions)"

definition fileFilter_analyze :: "multer_file \<Rightarrow> js_error + bool" where
  "fileFilter_analyze f =
     (if isValidMimeType f \<or> isValidExtension f then Inr True
      else Inl (new_Error (''Invalid file type. Received mimetype: '' @ normalizedMimeType f
                  @ '', extension: '' @ extension f
                  @ ''. Allowed types: JPEG, PNG and GIF'')))"

definition encodeImage_analyze :: "world \<Rightarrow> string \<Rightarrow> js_error + string" where
  "encodeImage_analyze w filePath =
     (case readFile w filePath of
        Inr img \<Rightarrow> Inr (base64 img)
      | Inl error \<Rightarrow> Inl (new_Error (''Error encoding image: '' @ message error)))"

text \<open>
  \<^verbatim>\<open>cleanupFile\<close> calls \<^verbatim>\<open>fs.unlink\<close> once and swallows its failure.
\<close>

definition cleanupFile :: "world \<Rightarrow> string \<Rightarrow> world" where
  "cleanupFile w filePath =
     (let w' = w\<lparr> events := events w @ [UnlinkCalled filePath] \<rparr>
      in case unlink w' filePath of Inr w'' \<Rightarrow> w'' | Inl error \<Rightarrow> w')"

text \<open>
  The body of the \<^verbatim>\<open>/analyze\<close> route: \<^verbatim>\<open>{status, response, timestamp}\<close> on
  success, \<^verbatim>\<open>{status, error, timestamp}\<close> from the \<^verbatim>\<open>catch\<close>.
\<close>

record analysis_result =
  status :: string
  response :: "js_value option"
  error :: "string option"
  timestamp :: string

definition truthy :: "string option \<Rightarrow> bool" where
  "truthy s = (case s of None \<Rightarrow> False | Some t \<Rightarrow> t \<noteq> [])"

text \<open>\<^verbatim>\<open>req.body.question || "What is in this image?"\<close>\<close>

definition question_text :: "request \<Rightarrow> string" where
  "question_text req =
     (case req_question req of
        Some q \<Rightarrow> (if q \<noteq> [] then q else ''What is in this image?'')
      | None \<Rightarrow> ''What is in this image?'')"

text \<open>The \<^verbatim>\<open>try\<close> block after \<^verbatim>\<open>filePath = req.file.path\<close>, up to the awaited call.\<close>

definition analyze_try :: "environment \<Rightarrow> request \<Rightarrow> world \<Rightarrow> string \<Rightarrow> js_error + js_value" where
  "analyze_try env req w filePath =
     (case encodeImage_analyze w filePath of
        Inl e \<Rightarrow> Inl e
      | Inr base64Image \<Rightarrow>
          (if \<not> truthy (OPENAI_API_KEY env)
           then Inl (new_Error ''OpenAI API key not configured'')
           else axios_post env (question_text req) (''data:image/jpeg;base64,'' @ base64Image)
                  30000))"

text \<open>\<^verbatim>\<open>error.response?.status\<close> where it is truthy.\<close>

definition upstream_status :: "js_error \<Rightarrow> nat option" where
  "upstream_status err =
     (case response_status err of
        Some st \<Rightarrow> (if st \<noteq> 0 then Some st else None)
      | None \<Rightarrow> None)"

text \<open>The \<^verbatim>\<open>catch\<close> block: the first rule that matches sets the status code.\<close>

definition analyze_catch ::
  "environment \<Rightarrow> js_error \<Rightarrow> world \<Rightarrow> analysis_result http_response \<times> world" where
  "analyze_catch env err w =
     (let errorResponse =
            \<lparr> status = ''error'', response = None,
              error = Some (if message err \<noteq> [] then message err
                            else ''An error occurred during analysis''),
              timestamp = now env \<rparr>
      in case upstream_status err of
           Some st \<Rightarrow> respond st errorResponse w
         | None \<Rightarrow>
             (if code err = Some ''ECONNABORTED'' then
                respond 504 (errorResponse\<lparr> error := Some ''Request timeout. Please try again.'' \<rparr>) w
              else if js_includes (message err) ''file type'' then respond 415 errorResponse w
              else respond 500 errorResponse w))"

definition analyze_route ::
  "environment \<Rightarrow> request \<Rightarrow> world \<Rightarrow> analysis_result http_response \<times> world" where
  "analyze_route env req w =
     (case req_file req of
        None \<Rightarrow> analyze_catch env (new_Error ''No image file provided'') w
      | Some f \<Rightarrow>
          (let filePath = path f;
               (res, w1) =
                 (case analyze_try env req w filePath of
                    Inr content \<Rightarrow>
                      respond 200
                        \<lparr> status = ''success'', response = Some content, error = None,
                          timestamp = now env \<rparr> w
                  | Inl err \<Rightarrow> analyze_catch env err w)
           in (res, if filePath \<noteq> [] then cleanupFile w1 filePath else w1)))"

subsection \<open>What the specification calls a Detection\<close>

text \<open>
  A well-formed Detection is an object with a string \<^verbatim>\<open>label\<close> and a number
  \<^verbatim>\<open>confidence\<close> between 0 and 1; the sentinel is the list that
  \<^verbatim>\<open>extractJsonFromResponse\<close> builds in its innermost \<^verbatim>\<open>catch\<close>.
\<close>

definition well_formed_detection :: "json \<Rightarrow> bool" where
  "well_formed_detection d =
     (case d of
        JObject ms \<Rightarrow>
          (case map_of ms ''label'' of
             Some (JString l) \<Rightarrow>
               (case map_of ms ''confidence'' of
                  Some (JNumber q) \<Rightarrow> 0 \<le> q \<and> q \<le> 1
                | _ \<Rightarrow> False)
           | _ \<Rightarrow> False)
      | _ \<Rightarrow> False)"

definition detection_list :: "js_value \<Rightarrow> bool" where
  "detection_list r =
     (case r of
        Json (JArray ds) \<Rightarrow> list_all well_formed_detection ds
      | _ \<Rightarrow> False)"

definition sentinel :: json where
  "sentinel = JArray [JObject [(''label'', JString ''Error parsing objects''), (''confidence'', JNumber 0)]]"

record detection =
  label :: string
  confidence :: rat

definition detection_json :: "detection \<Rightarrow> json" where
  "detection_json d = JObject [(''label'', JString (label d)), (''confidence'', JNumber (confidence d))]"

definition well_formed :: "detection \<Rightarrow> bool" where
  "well_formed d = (0 \<le> confidence d \<and> confidence d \<le> 1)"

subsection \<open>The platform's \<^verbatim>\<open>JSON.stringify\<close> on lists of Detections\<close>

text \<open>
  \<^verbatim>\<open>JSON.stringify\<close> writes a list of \<^verbatim>\<open>{label, confidence}\<close> objects without white
  space, the keys in the order of the object. A string is quoted, with \<^verbatim>\<open>"\<close>,
  \<^verbatim>\<open>\\<close> and the control characters escaped, the control characters without a short
  escape as \<^verbatim>\<open>\u00XX\<close> in lowercase hexadecimal. How a number is printed is left
  open: the printer is the parameter \<open>num\<close>.
\<close>

definition hex_digit :: "nat \<Rightarrow> char" where
  "hex_digit n = ''0123456789abcdef'' ! (n mod 16)"

definition quote_char :: "char \<Rightarrow> string" where
  "quote_char c =
     (if c = dquote then [backslash, dquote]
      else if c = backslash then [backslash, backslash]
      else if c = CHR 0x08 then [backslash, CHR ''b'']
      else if c = CHR 0x0C then [backslash, CHR ''f'']
      else if c = CHR 0x0A then [backslash, CHR ''n'']
      else if c = CHR 0x0D then [backslash, CHR ''r'']
      else if c = CHR 0x09 then [backslash, CHR ''t'']
      else if charCode c < 32 then
        [backslash, CHR ''u'', CHR ''0'', CHR ''0'',
         hex_digit (charCode c div 16), hex_digit (charCode c)]
      else [c])"

definition quote :: "string \<Rightarrow> string" where
  "quote s = dquote # concat (map quote_char s) @ [dquote]"

definition stringify_detection :: "(rat \<Rightarrow> string) \<Rightarrow> detection \<Rightarrow> string" where
  "stringify_detection num d =
     [CHR ''{''] @ quote ''label'' @ [CHR '':''] @ quote (label d) @ [CHR '',''] @
     quote ''confidence'' @ [CHR '':''] @ num (confidence d) @ [CHR ''}'']"

fun join_comma :: "string list \<Rightarrow> string" where
  "join_comma [] = []"
| "join_comma [s] = s"
| "join_comma (s # t # ts) = s @ CHR '','' # join_comma (t # ts)"

definition JSON_stringify :: "(rat \<Rightarrow> string) \<Rightarrow> detection list \<Rightarrow> string" where
  "JSON_stringify num x = CHR ''['' # join_comma (map (stringify_detection num) x) @ [CHR '']'']"

text \<open>
  A number printer is sound at \<open>q\<close> when what it prints is a JSON number literal that
  reads back as \<open>q\<close>.
\<close>

definition reads_back :: "(rat \<Rightarrow> string) \<Rightarrow> rat \<Rightarrow> bool" where
  "reads_back num q = (lex_number (num q) = Some (q, []))"

text \<open>The tokens of a serialised Detection and of a serialised list.\<close>

definition detection_tokens :: "detection \<Rightarrow> token list" where
  "detection_tokens d =
     [LBrace, TStr ''label'', Colon, TStr (label d), Comma,
      TStr ''confidence'', Colon, TVal (JNumber (confidence d)), RBrace]"

fun join_tokens :: "detection list \<Rightarrow> token list" where
  "join_tokens [] = []"
| "join_tokens [d] = detection_tokens d"
| "join_tokens (d # e # ds) = detection_tokens d @ Comma # join_tokens (e # ds)"

text \<open>
  The layered fallback as the specification words it, to compare with the function of
  the source: parse the text; else strip the fences, trim and parse; else parse the
  bracketed substring; if all three fail, the sentinel.
\<close>

definition layered_fallback :: "string \<Rightarrow> js_value" where
  "layered_fallback text =
     (case JSON_parse text of
        Inr v \<Rightarrow> Json v
      | Inl e \<Rightarrow>
          (case JSON_parse (trim (replace_fences text)) of
             Inr v \<Rightarrow> Json v
           | Inl e2 \<Rightarrow>
               (case match_array text of
                  None \<Rightarrow> Json sentinel
                | Some m \<Rightarrow>
                    (case JSON_parse m of
                       Inr v \<Rightarrow> Json v
                     | Inl e3 \<Rightarrow> Json sentinel))))"


text \<open>
  An exception is raised in the \<^verbatim>\<open>try\<close> block of the \<^verbatim>\<open>/analyze\<close> route when
  there is no file, the file cannot be read, the credential is missing, or the inference
  call fails.
\<close>

definition inference_fails :: "environment \<Rightarrow> request \<Rightarrow> string \<Rightarrow> bool" where
  "inference_fails env req bytes =
     (case axios_post env (question_text req) (''data:image/jpeg;base64,'' @ base64 bytes) 30000 of
        Inl e \<Rightarrow> True
      | Inr content \<Rightarrow> False)"

definition exception_raised :: "environment \<Rightarrow> request \<Rightarrow> world \<Rightarrow> bool" where
  "exception_raised env req w =
     (case req_file req of
        None \<Rightarrow> True
      | Some f \<Rightarrow>
          (case files w (path f) of
             None \<Rightarrow> True
           | Some bytes \<Rightarrow> \<not> truthy (OPENAI_API_KEY env) \<or> inference_fails env req bytes))"

subsection \<open>A concrete request\<close>

definition cat_png :: multer_file where
  "cat_png =
     \<lparr> fieldname = ''image'', originalname = ''cat.png'', encoding = ''7bit'',
       mimetype = ''image/png'', destination = ''uploads/'',
       filename = ''1700000000000.png'', path = ''uploads/1700000000000.png'',
       file_size = 3 \<rparr>"

definition cat_request :: request where
  "cat_request = \<lparr> req_file = Some cat_png, req_question = None \<rparr>"

definition stored :: world where
  "stored = \<lparr> files = (\<lambda>p. if p = ''uploads/1700000000000.png'' then Some ''abc'' else None),
              events = [] \<rparr>"

definition nothing_stored :: world where
  "nothing_stored = \<lparr> files = (\<lambda>p. None), events = [] \<rparr>"

definition rate_limited :: js_error where
  "rate_limited = \<lparr> message = ''Request failed with status code 429'',
                    code = Some ''ERR_BAD_REQUEST'', response_status = Some 429 \<rparr>"

definition timed_out :: js_error where
  "timed_out = \<lparr> message = ''timeout of 30000ms exceeded'',
                 code = Some ''ECONNABORTED'', response_status = None \<rparr>"

definition answering :: environment where
  "answering =
     \<lparr> OPENAI_API_KEY = Some ''sk-test'',
       openai_create = (\<lambda>url. Inr ''[]''),
       axios_post = (\<lambda>q url ms. Inr (Json (JString ''A cat sitting on a windowsill.''))),
       now = ''2024-01-01T00:00:00.000Z'' \<rparr>"

definition limiting :: environment where
  "limiting =
     \<lparr> OPENAI_API_KEY = Some ''sk-test'',
       openai_create = (\<lambda>url. Inl rate_limited),
       axios_post = (\<lambda>q url ms. Inl rate_limited),
       now = ''2024-01-01T00:00:00.000Z'' \<rparr>"

definition stalling :: environment where
  "stalling =
     \<lparr> OPENAI_API_KEY = Some ''sk-test'',
       openai_create = (\<lambda>url. Inl timed_out),
       axios_post = (\<lambda>q url ms. Inl timed_out),
       now = ''2024-01-01T00:00:00.000Z'' \<rparr>"

definition two_detections :: "detection list" where
  "two_detections =
     [\<lparr> label = ''car'', confidence = 19 / 20 \<rparr>, \<lparr> label = ''tree'', confidence = 1 \<rparr>]"

definition printed :: "rat \<Rightarrow> string" where
  "printed q = (if q = 19 / 20 then ''0.95'' else if q = 1 then ''1'' else ''0'')"

lemmas lex_defs = is_json_ws_def is_digit_def in_range_def charCode_def startsWith_def lex_number_def lex_unsigned_def
   lex_int_part_def lex_frac_part_def lex_exp_part_def lex_exp_digits_def nat_of_digits_def digit_val_def scale10_def
   hex_val_def unescape_def hex4_def cons_to_def

section \<open>Theorems\<close>

lemmas eval_defs = extractJsonFromResponse_def JSON_parse_def match_array_def trim_def
  is_js_space_def lex_defs

lemmas route_defs = analyze_route_def analyze_try_def analyze_catch_def upstream_status_def
  encodeImage_analyze_def
  readFile_def unlink_def ENOENT_def cleanupFile_def respond_def truthy_def question_text_def
  new_Error_def
  upload_route_def analyzeImage_def encodeImage_upload_def error_detection_def Let_def

lemmas input_defs = cat_request_def cat_png_def stored_def nothing_stored_def answering_def
  limiting_def stalling_def rate_limited_def timed_out_def

subsection \<open>\<^verbatim>\<open>extractJsonFromResponse\<close>\<close>

text \<open>
  C1 (as amended). For every string, \<^verbatim>\<open>extractJsonFromResponse\<close> never raises: it
  returns. A text that \<^verbatim>\<open>JSON.parse\<close> reads is returned as parsed, whatever its shape,
  so the value returned need not be a list of Detections.
\<close>

theorem extractJsonFromResponse_total:
  "(\<exists>r. extractJsonFromResponse text = Inr r)
   \<and> (JSON_parse text = Inr v \<longrightarrow> extractJsonFromResponse text = Inr (Json v))"
  by (auto simp: extractJsonFromResponse_def split: sum.splits option.splits)

theorem extractJsonFromResponse_total_witness:
  "JSON_parse ''42'' = Inr (JNumber 42)
   \<and> extractJsonFromResponse ''42'' = Inr (Json (JNumber 42))"
proof -
  have "JSON_parse ''42'' = Inr (JNumber 42)"
    by (simp add: JSON_parse_def lex_defs)
  with extractJsonFromResponse_total [of "''42''" "JNumber 42"] show ?thesis by simp
qed

text \<open>
  C1 as stated fails: the text \<^verbatim>\<open>42\<close> is returned as the number 42, which is not a
  list of Detections.
\<close>

theorem extract_number_counterexample:
  "extractJsonFromResponse ''42'' = Inr (Json (JNumber 42))
   \<and> \<not> detection_list (Json (JNumber 42))"
  by (simp add: eval_defs detection_list_def)

text \<open>
  C7 (the code departs from the claim). On a text that does not parse and has no
  bracketed substring, such as \<^verbatim>\<open>hello\<close>, the fourth layer of the fallback is
  missing: the function returns \<^verbatim>\<open>undefined\<close>, where the specification's fallback
  gives the sentinel.
\<close>

theorem extract_hello_undefined:
  "extractJsonFromResponse ''hello'' = Inr Undefined
   \<and> layered_fallback ''hello'' = Json sentinel"
  by (simp add: eval_defs layered_fallback_def)

text \<open>
  Wherever the text has a bracketed substring, the function is the specification's
  fallback; and a JSON text wrapped in a \<^verbatim>\<open>```json\<close> fence, which does not parse as
  it is, is read by the second layer.
\<close>

lemma extract_is_layered_fallback:
  "match_array text \<noteq> None \<Longrightarrow> extractJsonFromResponse text = Inr (layered_fallback text)"
  by (auto simp: extractJsonFromResponse_def layered_fallback_def sentinel_def
      error_detection_def split: sum.splits option.splits)

lemma extract_layers:
  "JSON_parse text = Inr v \<Longrightarrow> extractJsonFromResponse text = Inr (Json v)"
  "JSON_parse text = Inl e \<Longrightarrow> JSON_parse (trim (replace_fences text)) = Inr v \<Longrightarrow>
   extractJsonFromResponse text = Inr (Json v)"
  "JSON_parse text = Inl e \<Longrightarrow> JSON_parse (trim (replace_fences text)) = Inl e2 \<Longrightarrow>
   match_array text = Some m \<Longrightarrow> JSON_parse m = Inr v \<Longrightarrow>
   extractJsonFromResponse text = Inr (Json v)"
  "JSON_parse text = Inl e \<Longrightarrow> JSON_parse (trim (replace_fences text)) = Inl e2 \<Longrightarrow>
   match_array text = Some m \<Longrightarrow> JSON_parse m = Inl e3 \<Longrightarrow>
   extractJsonFromResponse text = Inr (Json sentinel)"
  "JSON_parse text = Inl e \<Longrightarrow> JSON_parse (trim (replace_fences text)) = Inl e2 \<Longrightarrow>
   match_array text = None \<Longrightarrow>
   extractJsonFromResponse text = Inr Undefined"
  by (simp_all add: extractJsonFromResponse_def sentinel_def error_detection_def)

lemma fenced_json_second_layer:
  \<open>JSON_parse (''```json'' @ [newline] @ ''[{"label": "car", "confidence": 0.95}]'' @ [newline] @ ''```'')
     = Inl SyntaxError
   \<and> JSON_parse (trim (replace_fences
       (''```json'' @ [newline] @ ''[{"label": "car", "confidence": 0.95}]'' @ [newline] @ ''```'')))
     = Inr (JArray [JObject [(''label'', JString ''car''), (''confidence'', JNumber (19 / 20))]])
   \<and> extractJsonFromResponse
       (''```json'' @ [newline] @ ''[{"label": "car", "confidence": 0.95}]'' @ [newline] @ ''```'')
     = Inr (Json (JArray [JObject [(''label'', JString ''car''), (''confidence'', JNumber (19 / 20))]]))\<close>
  by (simp add: eval_defs)

lemma sentinel_is_detection_list: "detection_list (Json sentinel)"
  by (simp add: detection_list_def sentinel_def well_formed_detection_def)

text \<open>
  C8 (as amended). The extractor validates nothing. A JSON value it returns is either
  the sentinel, a single well-formed Detection of confidence 0, or exactly what the text,
  the text without its fences, or the bracketed substring parses to: a list of well-formed
  Detections only when that text denotes one.
\<close>

theorem extract_returns_parsed_or_sentinel:
  "extractJsonFromResponse text = Inr (Json v) \<Longrightarrow>
   (v = sentinel \<and> detection_list (Json v))
   \<or> JSON_parse text = Inr v
   \<or> JSON_parse (trim (replace_fences text)) = Inr v
   \<or> (\<exists>m. match_array text = Some m \<and> JSON_parse m = Inr v)"
  using sentinel_is_detection_list
  by (auto simp: extractJsonFromResponse_def sentinel_def error_detection_def
      split: sum.splits option.splits)

theorem extract_returns_parsed_or_sentinel_witness:
  \<open>extractJsonFromResponse ''Here: [{"label": "car", ] ok'' = Inr (Json sentinel)
   \<and> match_array ''Here: [{"label": "car", ] ok'' = Some ''[{"label": "car", ]''
   \<and> JSON_parse ''[{"label": "car", ]'' \<noteq> Inr sentinel
   \<and> detection_list (Json sentinel)\<close>
proof -
  have e: \<open>extractJsonFromResponse ''Here: [{"label": "car", ] ok'' = Inr (Json sentinel)\<close>
    by (simp add: eval_defs sentinel_def error_detection_def SyntaxError_def)
  have m: \<open>match_array ''Here: [{"label": "car", ] ok'' = Some ''[{"label": "car", ]''\<close>
    by (simp add: match_array_def)
  have p: \<open>JSON_parse ''[{"label": "car", ]'' \<noteq> Inr sentinel\<close>
    by (simp add: JSON_parse_def lex_defs)
  have n: \<open>JSON_parse ''Here: [{"label": "car", ] ok'' \<noteq> Inr sentinel\<close>
    by (simp add: JSON_parse_def lex_defs)
  have t: \<open>JSON_parse (trim (replace_fences ''Here: [{"label": "car", ] ok'')) \<noteq> Inr sentinel\<close>
    by (simp add: JSON_parse_def trim_def is_js_space_def lex_defs)
  from extract_returns_parsed_or_sentinel [OF e] m p n t e show ?thesis by auto
qed

text \<open>
  C8 as stated fails: a list whose first element is a well-formed Detection and whose
  second is the number 7 is returned as it is, partially valid, and it is not the sentinel.
\<close>

theorem extract_partial_list_counterexample:
  \<open>extractJsonFromResponse ''[{"label": "car", "confidence": 0.95}, 7]''
     = Inr (Json (JArray [JObject [(''label'', JString ''car''), (''confidence'', JNumber (19 / 20))],
                          JNumber 7]))
   \<and> well_formed_detection (JObject [(''label'', JString ''car''), (''confidence'', JNumber (19 / 20))])
   \<and> \<not> well_formed_detection (JNumber 7)
   \<and> \<not> detection_list (Json (JArray [JObject [(''label'', JString ''car''), (''confidence'', JNumber (19 / 20))],
                          JNumber 7]))
   \<and> JArray [JObject [(''label'', JString ''car''), (''confidence'', JNumber (19 / 20))], JNumber 7]
       \<noteq> sentinel\<close>
  by (simp add: eval_defs detection_list_def well_formed_detection_def sentinel_def)

subsubsection \<open>\<^verbatim>\<open>JSON.parse\<close> reads what \<^verbatim>\<open>JSON.stringify\<close> writes\<close>

lemma hex_val_hex_digit: "k < 16 \<Longrightarrow> hex_val (hex_digit k) = Some k"
proof -
  assume "k < 16"
  then have "k = 0 \<or> k = 1 \<or> k = 2 \<or> k = 3 \<or> k = 4 \<or> k = 5 \<or> k = 6 \<or> k = 7 \<or> k = 8
      \<or> k = 9 \<or> k = 10 \<or> k = 11 \<or> k = 12 \<or> k = 13 \<or> k = 14 \<or> k = 15"
    by arith
  then show ?thesis
    by (auto simp: hex_val_def hex_digit_def in_range_def charCode_def)
qed

lemma zero_hex: "hex_val CHR ''0'' = Some 0"
  by (simp add: hex_val_def in_range_def charCode_def)

lemma hex4_control:
  "charCode c < 32 \<Longrightarrow>
   hex4 CHR ''0'' CHR ''0'' (hex_digit (charCode c div 16)) (hex_digit (charCode c)) = Some c"
proof -
  assume c: "charCode c < 32"
  have a: "hex_val (hex_digit (charCode c div 16)) = Some (charCode c div 16)"
    using c by (intro hex_val_hex_digit) simp
  have "hex_digit (charCode c) = hex_digit (charCode c mod 16)"
    by (simp add: hex_digit_def)
  then have b: "hex_val (hex_digit (charCode c)) = Some (charCode c mod 16)"
    by (simp add: hex_val_hex_digit)
  have "char_of (charCode c div 16 * 16 + charCode c mod 16) = c"
    by (simp add: charCode_def)
  with a b show ?thesis
    by (simp add: hex4_def zero_hex)
qed


lemma cons_to_Some_eq: "cons_to c (Some (s, rest)) = Some (c # s, rest)"
  by (simp add: cons_to_def)

lemma lex_string_quote_char:
  "lex_string (quote_char c @ cs) = cons_to c (lex_string cs)"
proof -
  consider (q) "c = dquote" | (b) "c = backslash"
    | (short) "c \<in> {CHR 0x08, CHR 0x0C, CHR 0x0A, CHR 0x0D, CHR 0x09}"
    | (ctl) "c \<noteq> dquote" "c \<noteq> backslash"
        "c \<notin> {CHR 0x08, CHR 0x0C, CHR 0x0A, CHR 0x0D, CHR 0x09}" "charCode c < 32"
    | (plain) "c \<noteq> dquote" "c \<noteq> backslash"
        "c \<notin> {CHR 0x08, CHR 0x0C, CHR 0x0A, CHR 0x0D, CHR 0x09}" "\<not> charCode c < 32"
    by blast
  then show ?thesis
  proof cases
    case q
    then show ?thesis by (simp add: quote_char_def unescape_def)
  next
    case b
    then show ?thesis by (simp add: quote_char_def unescape_def)
  next
    case short
    then show ?thesis by (auto simp: quote_char_def unescape_def)
  next
    case ctl
    then show ?thesis by (simp add: quote_char_def hex4_control)
  next
    case plain
    then show ?thesis by (simp add: quote_char_def)
  qed
qed

lemma lex_string_quoted:
  "lex_string (concat (map quote_char s) @ dquote # rest) = Some (s, rest)"
  by (induction s) (simp_all add: lex_string_quote_char cons_to_def)


lemma not_digit_brace: "\<not> is_digit CHR ''}''"
  by (simp add: is_digit_def in_range_def charCode_def)

lemma takeWhile_digit_brace:
  "takeWhile is_digit (s @ CHR ''}'' # rest) = takeWhile is_digit s"
  by (induction s) (simp_all add: not_digit_brace)

lemma dropWhile_digit_brace:
  "dropWhile is_digit (s @ CHR ''}'' # rest) = dropWhile is_digit s @ CHR ''}'' # rest"
  by (induction s) (simp_all add: not_digit_brace)

lemma lex_int_part_brace:
  "lex_int_part s = Some (ip, r) \<Longrightarrow>
   lex_int_part (s @ CHR ''}'' # rest) = Some (ip, r @ CHR ''}'' # rest)"
  using takeWhile_digit_brace [of s rest] dropWhile_digit_brace [of s rest]
  by (cases s) (auto simp: lex_int_part_def split: if_splits)

lemma lex_frac_part_brace:
  "lex_frac_part s = Some (fp, r) \<Longrightarrow>
   lex_frac_part (s @ CHR ''}'' # rest) = Some (fp, r @ CHR ''}'' # rest)"
proof (cases s)
  case Nil
  then show "lex_frac_part s = Some (fp, r) \<Longrightarrow> ?thesis"
    by (simp add: lex_frac_part_def)
next
  case (Cons c cs)
  then show "lex_frac_part s = Some (fp, r) \<Longrightarrow> ?thesis"
    using takeWhile_digit_brace [of cs rest] dropWhile_digit_brace [of cs rest]
    by (auto simp: lex_frac_part_def split: if_splits)
qed

lemma lex_exp_digits_brace:
  "lex_exp_digits neg s = Some (ex, r) \<Longrightarrow>
   lex_exp_digits neg (s @ CHR ''}'' # rest) = Some (ex, r @ CHR ''}'' # rest)"
  using takeWhile_digit_brace [of s rest] dropWhile_digit_brace [of s rest]
  by (auto simp: lex_exp_digits_def split: if_splits)

lemma lex_exp_digits_nonempty:
  "lex_exp_digits neg s = Some (ex, r) \<Longrightarrow> s \<noteq> []"
  by (auto simp: lex_exp_digits_def)

lemma lex_exp_part_brace:
  "lex_exp_part s = Some (ex, r) \<Longrightarrow>
   lex_exp_part (s @ CHR ''}'' # rest) = Some (ex, r @ CHR ''}'' # rest)"
proof (cases s)
  case Nil
  then show "lex_exp_part s = Some (ex, r) \<Longrightarrow> ?thesis"
    by (simp add: lex_exp_part_def)
next
  case (Cons c cs)
  assume a: "lex_exp_part s = Some (ex, r)"
  show ?thesis
  proof (cases "c = CHR ''e'' \<or> c = CHR ''E''")
    case False
    with a Cons have "ex = 0" "r = c # cs" by (auto simp: lex_exp_part_def)
    with Cons False show ?thesis by (simp add: lex_exp_part_def)
  next
    case True
    with a Cons obtain d ds where cs: "cs = d # ds"
      by (cases cs) (auto simp: lex_exp_part_def)
    consider (minus) "d = CHR ''-''" | (plus) "d = CHR ''+''"
      | (none) "d \<noteq> CHR ''-''" "d \<noteq> CHR ''+''"
      by blast
    then show ?thesis
    proof cases
      case minus
      with a Cons True cs lex_exp_digits_brace [of True ds ex r rest] show ?thesis
        by (auto simp: lex_exp_part_def)
    next
      case plus
      with a Cons True cs lex_exp_digits_brace [of False ds ex r rest] show ?thesis
        by (auto simp: lex_exp_part_def)
    next
      case none
      with a Cons True cs lex_exp_digits_brace [of False cs ex r rest] show ?thesis
        by (auto simp: lex_exp_part_def)
    qed
  qed
qed

lemma lex_unsigned_brace:
  "lex_unsigned s = Some (q, r) \<Longrightarrow>
   lex_unsigned (s @ CHR ''}'' # rest) = Some (q, r @ CHR ''}'' # rest)"
proof -
  assume a: "lex_unsigned s = Some (q, r)"
  then obtain ip s1 where i: "lex_int_part s = Some (ip, s1)"
    by (auto simp: lex_unsigned_def split: option.splits)
  with a obtain fp s2 where f: "lex_frac_part s1 = Some (fp, s2)"
    by (auto simp: lex_unsigned_def split: option.splits)
  with a i obtain ex where e: "lex_exp_part s2 = Some (ex, r)"
    and q: "q = scale10 (of_nat (nat_of_digits (ip @ fp))) (ex - int (length fp))"
    by (auto simp: lex_unsigned_def split: option.splits)
  from lex_int_part_brace [OF i, of rest] lex_frac_part_brace [OF f, of rest]
    lex_exp_part_brace [OF e, of rest] q
  show ?thesis by (simp add: lex_unsigned_def)
qed

lemma lex_number_brace:
  "lex_number s = Some (q, r) \<Longrightarrow>
   lex_number (s @ CHR ''}'' # rest) = Some (q, r @ CHR ''}'' # rest)"
proof (cases s)
  case Nil
  then show "lex_number s = Some (q, r) \<Longrightarrow> ?thesis" by (simp add: lex_number_def)
next
  case (Cons c cs)
  assume a: "lex_number s = Some (q, r)"
  show ?thesis
  proof (cases "c = CHR ''-''")
    case True
    with a Cons obtain q' where u: "lex_unsigned cs = Some (q', r)" and q: "q = - q'"
      by (auto simp: lex_number_def)
    from lex_unsigned_brace [OF u, of rest] q True Cons show ?thesis
      by (simp add: lex_number_def)
  next
    case False
    with a Cons have u: "lex_unsigned s = Some (q, r)"
      by (simp add: lex_number_def)
    from lex_unsigned_brace [OF u, of rest] False Cons show ?thesis
      by (simp add: lex_number_def)
  qed
qed

lemma lex_number_first:
  "lex_number s = Some (q, r) \<Longrightarrow> \<exists>c cs. s = c # cs \<and> (c = CHR ''-'' \<or> is_digit c)"
  by (cases s)
    (auto simp: lex_number_def lex_unsigned_def lex_int_part_def is_digit_def in_range_def
      charCode_def split: if_splits option.splits)

lemma digit_not_punct:
  "c = CHR ''-'' \<or> is_digit c \<Longrightarrow>
   \<not> is_json_ws c \<and> c \<noteq> CHR ''['' \<and> c \<noteq> CHR '']'' \<and> c \<noteq> CHR ''{'' \<and> c \<noteq> CHR ''}''
   \<and> c \<noteq> CHR '','' \<and> c \<noteq> CHR '':'' \<and> c \<noteq> dquote"
  by (auto simp: is_digit_def in_range_def charCode_def is_json_ws_def)

lemma tokens_number:
  "lex_number s = Some (q, []) \<Longrightarrow>
   tokens (s @ CHR ''}'' # rest) = map_option (Cons (TVal (JNumber q))) (tokens (CHR ''}'' # rest))"
proof -
  assume a: "lex_number s = Some (q, [])"
  from lex_number_first [OF a] obtain c cs where s: "s = c # cs"
    and c: "c = CHR ''-'' \<or> is_digit c" by blast
  from lex_number_brace [OF a, of rest] s
  have l: "lex_number (c # cs @ CHR ''}'' # rest) = Some (q, CHR ''}'' # rest)" by simp
  from digit_not_punct [OF c] c l s show ?thesis
    by (simp del: tokens.simps add: tokens.simps(2) [of c])
qed


lemma tokens_punct:
  "tokens (CHR ''['' # cs) = map_option (Cons LBrack) (tokens cs)"
  "tokens (CHR '']'' # cs) = map_option (Cons RBrack) (tokens cs)"
  "tokens (CHR ''{'' # cs) = map_option (Cons LBrace) (tokens cs)"
  "tokens (CHR ''}'' # cs) = map_option (Cons RBrace) (tokens cs)"
  "tokens (CHR '','' # cs) = map_option (Cons Comma) (tokens cs)"
  "tokens (CHR '':'' # cs) = map_option (Cons Colon) (tokens cs)"
  by (simp_all add: is_json_ws_def)

lemma tokens_quote:
  "tokens (quote s @ rest) = map_option (Cons (TStr s)) (tokens rest)"
  by (simp add: quote_def is_json_ws_def lex_string_quoted)

lemma tokens_detection:
  "reads_back num (confidence d) \<Longrightarrow> tokens rest = Some ts \<Longrightarrow>
   tokens (stringify_detection num d @ rest) = Some (detection_tokens d @ ts)"
  by (simp del: tokens.simps
      add: stringify_detection_def detection_tokens_def reads_back_def tokens_punct
        tokens_quote tokens_number)

lemma tokens_join:
  "\<forall>d\<in>set x. reads_back num (confidence d) \<Longrightarrow> tokens rest = Some ts \<Longrightarrow>
   tokens (join_comma (map (stringify_detection num) x) @ rest) = Some (join_tokens x @ ts)"
proof (induction x rule: join_tokens.induct)
  case 1
  then show ?case by simp
next
  case (2 d)
  then show ?case by (simp del: tokens.simps add: tokens_detection)
next
  case (3 d e ds)
  from "3.prems" have "tokens (join_comma (map (stringify_detection num) (e # ds)) @ rest)
      = Some (join_tokens (e # ds) @ ts)"
    by (intro "3.IH") simp_all
  then have "tokens (CHR '','' # join_comma (map (stringify_detection num) (e # ds)) @ rest)
      = Some (Comma # join_tokens (e # ds) @ ts)"
    by (simp del: tokens.simps join_comma.simps join_tokens.simps add: tokens_punct)
  with "3.prems"(1) show ?case
    using tokens_detection [of num d
        "CHR '','' # join_comma (map (stringify_detection num) (e # ds)) @ rest"
        "Comma # join_tokens (e # ds) @ ts"]
    by simp
qed

lemma tokens_stringify:
  "\<forall>d\<in>set x. reads_back num (confidence d) \<Longrightarrow>
   tokens (JSON_stringify num x) = Some (LBrack # join_tokens x @ [RBrack])"
proof -
  assume a: "\<forall>d\<in>set x. reads_back num (confidence d)"
  have "tokens [CHR '']''] = Some [RBrack]"
    by (simp add: is_json_ws_def)
  from tokens_join [OF a this] show ?thesis
    by (simp del: tokens.simps add: JSON_stringify_def tokens_punct)
qed

lemma run_detection:
  "run (PValue b) (FArr es # stk) (detection_tokens d @ ts)
     = run PSep (FArr (detection_json d # es) # stk) ts"
  by (simp add: detection_tokens_def detection_json_def)

lemma run_join:
  "x \<noteq> [] \<Longrightarrow>
   run (PValue b) [FArr es] (join_tokens x @ [RBrack])
     = Some (JArray (rev es @ map detection_json x))"
proof (induction x arbitrary: es b rule: join_tokens.induct)
  case 1
  then show ?case by simp
next
  case (2 d)
  show ?case by (simp add: run_detection)
next
  case (3 d e ds)
  have "run (PValue b) [FArr es] (join_tokens (d # e # ds) @ [RBrack])
      = run PSep [FArr (detection_json d # es)] (Comma # join_tokens (e # ds) @ [RBrack])"
    by (simp only: join_tokens.simps append_assoc append_Cons run_detection)
  also have "\<dots> = run (PValue False) [FArr (detection_json d # es)]
      (join_tokens (e # ds) @ [RBrack])"
    by (simp del: join_tokens.simps)
  also have "\<dots> = Some (JArray (rev (detection_json d # es) @ map detection_json (e # ds)))"
    by (rule "3.IH") simp
  finally show ?case by simp
qed

lemma run_stringify:
  "run (PValue False) [] (LBrack # join_tokens x @ [RBrack]) = Some (JArray (map detection_json x))"
proof (cases x)
  case Nil
  then show ?thesis by simp
next
  case (Cons d ds)
  then have "x \<noteq> []" by simp
  from run_join [OF this, of True "[]"] show ?thesis by simp
qed

lemma parse_stringify:
  "\<forall>d\<in>set x. reads_back num (confidence d) \<Longrightarrow>
   JSON_parse (JSON_stringify num x) = Inr (JArray (map detection_json x))"
proof -
  assume "\<forall>d\<in>set x. reads_back num (confidence d)"
  then have "tokens (JSON_stringify num x) = Some (LBrack # join_tokens x @ [RBrack])"
    by (rule tokens_stringify)
  then show ?thesis
    by (simp only: JSON_parse_def run_stringify option.case)
qed

text \<open>
  C9. Round trip: for every list \<open>x\<close> of well-formed Detections, whose numbers are
  printed as number literals that read back as themselves, the extractor applied to the
  JSON text of \<open>x\<close> returns \<open>x\<close> unchanged (and \<open>x\<close> is a list of well-formed
  Detections).
\<close>

theorem extract_roundtrip:
  "\<forall>d\<in>set x. well_formed d \<and> reads_back num (confidence d) \<Longrightarrow>
   extractJsonFromResponse (JSON_stringify num x) = Inr (Json (JArray (map detection_json x)))
   \<and> detection_list (Json (JArray (map detection_json x)))"
proof -
  assume a: "\<forall>d\<in>set x. well_formed d \<and> reads_back num (confidence d)"
  then have "JSON_parse (JSON_stringify num x) = Inr (JArray (map detection_json x))"
    by (intro parse_stringify) simp
  moreover from a have "list_all well_formed_detection (map detection_json x)"
    by (simp add: list_all_iff well_formed_def well_formed_detection_def detection_json_def)
  ultimately show ?thesis
    by (simp add: extractJsonFromResponse_def detection_list_def)
qed

theorem extract_roundtrip_witness:
  \<open>reads_back printed (19 / 20) \<and> reads_back printed 1
   \<and> JSON_stringify printed two_detections
       = ''[{"label":"car","confidence":0.95},{"label":"tree","confidence":1}]''
   \<and> extractJsonFromResponse ''[{"label":"car","confidence":0.95},{"label":"tree","confidence":1}]''
       = Inr (Json (JArray [JObject [(''label'', JString ''car''), (''confidence'', JNumber (19 / 20))],
                            JObject [(''label'', JString ''tree''), (''confidence'', JNumber 1)]]))\<close>
proof -
  have h: "\<forall>d\<in>set two_detections. well_formed d \<and> reads_back printed (confidence d)"
    by (simp add: two_detections_def well_formed_def reads_back_def printed_def lex_defs)
  have s: \<open>JSON_stringify printed two_detections
       = ''[{"label":"car","confidence":0.95},{"label":"tree","confidence":1}]''\<close>
    by (simp add: JSON_stringify_def stringify_detection_def quote_def quote_char_def
        two_detections_def printed_def charCode_def)
  have r: "reads_back printed (19 / 20) \<and> reads_back printed 1"
    by (simp add: reads_back_def printed_def lex_defs)
  from extract_roundtrip [OF h] r s show ?thesis
    by (simp add: two_detections_def detection_json_def)
qed

subsection \<open>The upload validators\<close>

text \<open>
  C3 (as amended). The \<^verbatim>\<open>/analyze\<close> validator accepts if and only if the lowercased
  normalised MIME type is one of image/jpeg, image/jpg, image/png, image/gif or the
  lowercased extension is one of .jpeg, .jpg, .png, .gif, and otherwise rejects with an
  error whose message starts with \<^verbatim>\<open>Invalid file type\<close>. The \<^verbatim>\<open>/upload\<close> validator
  looks at the name only: it accepts if and only if the original name ends, in any case,
  in .jpg, .jpeg, .png or .gif, and otherwise rejects with
  \<^verbatim>\<open>Only image files are allowed!\<close>.
\<close>

theorem fileFilter_accepts_iff:
  "(fileFilter_analyze f = Inr True
      \<longleftrightarrow> toLowerCase (normalizedMimeType f)
            \<in> {''image/jpeg'', ''image/jpg'', ''image/png'', ''image/gif''}
          \<or> toLowerCase (path_extname (originalname f))
            \<in> {''.jpeg'', ''.jpg'', ''.png'', ''.gif''})
   \<and> (fileFilter_analyze f \<noteq> Inr True
      \<longleftrightarrow> (\<exists>e. fileFilter_analyze f = Inl e
            \<and> startsWith (message e) ''Invalid file type''))
   \<and> (fileFilter_upload f = Inr True \<longleftrightarrow> matches_image_name (originalname f))
   \<and> (fileFilter_upload f \<noteq> Inr True
      \<longleftrightarrow> fileFilter_upload f = Inl (new_Error ''Only image files are allowed!''))"
  by (simp add: fileFilter_analyze_def fileFilter_upload_def isValidMimeType_def
      isValidExtension_def extension_def allowedMimeTypes_def allowedExtensions_def
      new_Error_def startsWith_def)

lemma fileFilter_analyze_mime_only:
  "fileFilter_analyze (cat_png\<lparr> originalname := ''photo.txt'' \<rparr>) = Inr True"
  by (simp add: fileFilter_analyze_def isValidMimeType_def normalizedMimeType_def
      allowedMimeTypes_def toLowerCase_def lower_char_def in_range_def charCode_def cat_png_def)

text \<open>
  C3 as stated fails on the \<^verbatim>\<open>/upload\<close> validator: a part declared image/png and
  named \<^verbatim>\<open>photo.txt\<close> has an allowed MIME type and is rejected.
\<close>

theorem fileFilter_upload_counterexample:
  "mimetype (cat_png\<lparr> originalname := ''photo.txt'' \<rparr>) = ''image/png''
   \<and> fileFilter_upload (cat_png\<lparr> originalname := ''photo.txt'' \<rparr>)
       = Inl (new_Error ''Only image files are allowed!'')"
  by (simp add: fileFilter_upload_def matches_image_name_def endsWith_def startsWith_def
      toLowerCase_def lower_char_def in_range_def charCode_def cat_png_def)

subsection \<open>The \<^verbatim>\<open>/upload\<close> route\<close>

lemma analyzeImage_returns: "\<exists>r. analyzeImage env w p = Inr r"
  by (simp add: analyzeImage_def split: sum.splits)

lemma upload_route_file:
  "req_file req = Some f \<Longrightarrow>
   \<exists>objs. upload_route env req w =
     respond 200 (Analyzed ''File uploaded and analyzed successfully'' f objs) w"
  using analyzeImage_returns [of env w "path f"]
  by (auto simp: upload_route_def)

lemma upload_route_world:
  "upload_route env req w =
     (fst (upload_route env req w),
      w\<lparr> events := events w @ [Responded (statusCode (fst (upload_route env req w)))] \<rparr>)"
  by (simp add: upload_route_def respond_def split: option.splits sum.splits)



subsection \<open>The \<^verbatim>\<open>/analyze\<close> route\<close>

lemma cleanupFile_effect:
  "events (cleanupFile w p) = events w @ [UnlinkCalled p] \<and> files (cleanupFile w p) p = None"
  by (simp add: cleanupFile_def unlink_def Let_def split: option.splits)

lemma analyze_catch_events:
  "events (snd (analyze_catch env e w))
     = events w @ [Responded (statusCode (fst (analyze_catch env e w)))]"
  by (simp add: analyze_catch_def respond_def Let_def split: option.splits)

lemma analyze_catch_status:
  "status (body (fst (analyze_catch env e w))) = ''error''"
  by (simp add: analyze_catch_def respond_def Let_def split: option.splits)

lemma analyze_route_file:
  "req_file req = Some f \<Longrightarrow> path f \<noteq> [] \<Longrightarrow>
   analyze_route env req w =
     (case analyze_try env req w (path f) of
        Inr content \<Rightarrow>
          (\<lparr> statusCode = 200,
             body = \<lparr> status = ''success'', response = Some content, error = None,
                      timestamp = now env \<rparr> \<rparr>,
           cleanupFile (w\<lparr> events := events w @ [Responded 200] \<rparr>) (path f))
      | Inl err \<Rightarrow>
          (fst (analyze_catch env err w), cleanupFile (snd (analyze_catch env err w)) (path f)))"
  by (simp add: analyze_route_def respond_def Let_def split: sum.splits prod.splits)

lemma analyze_route_fst:
  "req_file req = Some f \<Longrightarrow>
   fst (analyze_route env req w) =
     (case analyze_try env req w (path f) of
        Inr content \<Rightarrow>
          \<lparr> statusCode = 200,
            body = \<lparr> status = ''success'', response = Some content, error = None,
                     timestamp = now env \<rparr> \<rparr>
      | Inl err \<Rightarrow> fst (analyze_catch env err w))"
  by (simp add: analyze_route_def respond_def Let_def split: sum.splits prod.splits)

lemma analyze_route_status:
  "status (body (fst (analyze_route env req w))) = ''error'' \<or>
   status (body (fst (analyze_route env req w))) = ''success''"
  by (simp add: analyze_route_def analyze_catch_def respond_def Let_def
      split: option.splits sum.splits prod.splits)

lemma analyze_try_raises:
  "(\<exists>e. analyze_try env req w (path f) = Inl e)
   \<longleftrightarrow> (case files w (path f) of
          None \<Rightarrow> True
        | Some bytes \<Rightarrow> \<not> truthy (OPENAI_API_KEY env) \<or> inference_fails env req bytes)"
  by (auto simp: analyze_try_def encodeImage_analyze_def readFile_def inference_fails_def
      split: option.splits sum.splits)

text \<open>
  C2 (as amended). In the \<^verbatim>\<open>/analyze\<close> route, for every request that carries a file,
  whatever the outcome, \<^verbatim>\<open>fs.unlink\<close> is called on the temporary file exactly once,
  after the response is sent, and the file is gone afterwards. The \<^verbatim>\<open>/upload\<close> route
  never deletes the uploaded file: it leaves the file system as it found it.
\<close>

theorem cleanup_once_after_response:
  "req_file req = Some f \<Longrightarrow> path f \<noteq> [] \<Longrightarrow>
   events (snd (analyze_route env req w))
     = events w @ [Responded (statusCode (fst (analyze_route env req w))), UnlinkCalled (path f)]
   \<and> files (snd (analyze_route env req w)) (path f) = None
   \<and> files (snd (upload_route env req w)) = files w
   \<and> events (snd (upload_route env req w))
     = events w @ [Responded (statusCode (fst (upload_route env req w)))]"
proof -
  assume f: "req_file req = Some f" and p: "path f \<noteq> []"
  have a: "events (snd (analyze_route env req w))
     = events w @ [Responded (statusCode (fst (analyze_route env req w))), UnlinkCalled (path f)]
     \<and> files (snd (analyze_route env req w)) (path f) = None"
    by (cases "analyze_try env req w (path f)")
      (simp_all add: analyze_route_file [OF f p] cleanupFile_effect analyze_catch_events)
  have u: "files (snd (upload_route env req w)) = files w
     \<and> events (snd (upload_route env req w))
       = events w @ [Responded (statusCode (fst (upload_route env req w)))]"
    by (subst (1 2) upload_route_world) simp
  from a u show ?thesis by simp
qed

theorem cleanup_once_after_response_witness:
  "req_file cat_request = Some cat_png \<and> path cat_png \<noteq> []
   \<and> events (snd (analyze_route answering cat_request stored))
       = [Responded 200, UnlinkCalled ''uploads/1700000000000.png'']
   \<and> files (snd (analyze_route answering cat_request stored)) ''uploads/1700000000000.png'' = None"
proof -
  have h: "req_file cat_request = Some cat_png" "path cat_png \<noteq> []"
    by (simp_all add: cat_request_def cat_png_def)
  have s: "statusCode (fst (analyze_route answering cat_request stored)) = 200"
    by (simp add: route_defs input_defs)
  from cleanup_once_after_response [OF h, of answering stored] h s show ?thesis
    by (simp add: cat_png_def stored_def)
qed

text \<open>
  C2 as stated fails on the \<^verbatim>\<open>/upload\<close> route: after a successful request the
  uploaded file is still stored, and \<^verbatim>\<open>fs.unlink\<close> was never called.
\<close>

theorem upload_keeps_file_counterexample:
  "files (snd (upload_route answering cat_request stored)) ''uploads/1700000000000.png''
     = Some ''abc''
   \<and> events (snd (upload_route answering cat_request stored)) = [Responded 200]"
  by (simp add: route_defs input_defs eval_defs split: sum.splits)

lemma analyzeImage_cases:
  "readFile w p = Inl e \<Longrightarrow>
   analyzeImage env w p = Inr (Json (error_detection (''Error: '' @ message e)))"
  "readFile w p = Inr bytes \<Longrightarrow>
   openai_create env (''data:image/jpeg;base64,'' @ base64 bytes) = Inl e \<Longrightarrow>
   analyzeImage env w p = Inr (Json (error_detection (''Error: '' @ message e)))"
  "readFile w p = Inr bytes \<Longrightarrow>
   openai_create env (''data:image/jpeg;base64,'' @ base64 bytes) = Inr content \<Longrightarrow>
   extractJsonFromResponse content = Inr r \<Longrightarrow>
   analyzeImage env w p = Inr r"
  by (simp_all add: analyzeImage_def encodeImage_upload_def)

lemma upload_route_body:
  "req_file req = Some f \<Longrightarrow> analyzeImage env w (path f) = Inr objs \<Longrightarrow>
   fst (upload_route env req w)
     = \<lparr> statusCode = 200,
         body = Analyzed ''File uploaded and analyzed successfully'' f objs \<rparr>"
  by (simp add: upload_route_def respond_def)

text \<open>
  C4 (as amended). In the \<^verbatim>\<open>/analyze\<close> route the result has status \<^verbatim>\<open>error\<close> if and
  only if an exception was raised after validation (no file, unreadable file, missing
  credential, failed inference call), and status \<^verbatim>\<open>success\<close> otherwise. The
  \<^verbatim>\<open>/upload\<close> route answers every request that carries a file with 200 and the
  success message; a failure inside \<^verbatim>\<open>analyzeImage\<close> (the file cannot be read, the
  inference call throws) is reported in that body as a single Detection of confidence 0
  labelled \<^verbatim>\<open>Error: \<close> followed by the error's message, and without a failure the
  objects are what the extractor returns.
\<close>

theorem status_error_iff_exception:
  "(status (body (fst (analyze_route env req w))) = ''error'' \<longleftrightarrow> exception_raised env req w)
   \<and> (status (body (fst (analyze_route env req w))) = ''success''
        \<longleftrightarrow> \<not> exception_raised env req w)
   \<and> (req_file req \<noteq> None \<longrightarrow> statusCode (fst (upload_route env req w)) = 200)
   \<and> (req_file req = Some f \<longrightarrow>
        (\<exists>objs. fst (upload_route env req w)
           = \<lparr> statusCode = 200,
               body = Analyzed ''File uploaded and analyzed successfully'' f objs \<rparr>)
        \<and> (readFile w (path f) = Inl e \<longrightarrow>
             fst (upload_route env req w)
               = \<lparr> statusCode = 200,
                   body = Analyzed ''File uploaded and analyzed successfully'' f
                     (Json (JArray [JObject [(''label'', JString (''Error: '' @ message e)),
                                             (''confidence'', JNumber 0)]])) \<rparr>)
        \<and> (readFile w (path f) = Inr bytes \<longrightarrow>
             openai_create env (''data:image/jpeg;base64,'' @ base64 bytes) = Inl e \<longrightarrow>
             fst (upload_route env req w)
               = \<lparr> statusCode = 200,
                   body = Analyzed ''File uploaded and analyzed successfully'' f
                     (Json (JArray [JObject [(''label'', JString (''Error: '' @ message e)),
                                             (''confidence'', JNumber 0)]])) \<rparr>)
        \<and> (readFile w (path f) = Inr bytes \<longrightarrow>
             openai_create env (''data:image/jpeg;base64,'' @ base64 bytes) = Inr content \<longrightarrow>
             extractJsonFromResponse content = Inr r \<longrightarrow>
             fst (upload_route env req w)
               = \<lparr> statusCode = 200,
                   body = Analyzed ''File uploaded and analyzed successfully'' f r \<rparr>))"
proof -
  have a: "status (body (fst (analyze_route env req w))) = ''error'' \<longleftrightarrow> exception_raised env req w"
  proof (cases "req_file req")
    case None
    then show ?thesis
      by (simp add: analyze_route_def analyze_catch_status exception_raised_def)
  next
    case (Some f)
    show ?thesis
    proof (cases "analyze_try env req w (path f)")
      case (Inl e)
      with analyze_try_raises [of env req w f] have "exception_raised env req w"
        using Some by (auto simp: exception_raised_def)
      with Some Inl show ?thesis
        by (simp add: analyze_route_fst analyze_catch_status)
    next
      case (Inr content)
      with analyze_try_raises [of env req w f] have "\<not> exception_raised env req w"
        using Some by (auto simp: exception_raised_def)
      with Some Inr show ?thesis
        by (simp add: analyze_route_fst)
    qed
  qed
  have b: "status (body (fst (analyze_route env req w))) = ''success''
        \<longleftrightarrow> \<not> status (body (fst (analyze_route env req w))) = ''error''"
    using analyze_route_status [of env req w] by auto
  have c: "req_file req \<noteq> None \<longrightarrow> statusCode (fst (upload_route env req w)) = 200"
    using upload_route_file [of req _ env w] by (auto simp: respond_def)
  have d: "req_file req = Some f \<longrightarrow>
      (\<exists>objs. fst (upload_route env req w)
         = \<lparr> statusCode = 200,
             body = Analyzed ''File uploaded and analyzed successfully'' f objs \<rparr>)"
    using analyzeImage_returns [of env w "path f"] by (auto simp: upload_route_body)
  have e1: "req_file req = Some f \<longrightarrow> readFile w (path f) = Inl e \<longrightarrow>
      fst (upload_route env req w)
        = \<lparr> statusCode = 200,
            body = Analyzed ''File uploaded and analyzed successfully'' f
              (Json (JArray [JObject [(''label'', JString (''Error: '' @ message e)),
                                      (''confidence'', JNumber 0)]])) \<rparr>"
    by (simp add: upload_route_body analyzeImage_cases(1) error_detection_def)
  have e2: "req_file req = Some f \<longrightarrow> readFile w (path f) = Inr bytes \<longrightarrow>
      openai_create env (''data:image/jpeg;base64,'' @ base64 bytes) = Inl e \<longrightarrow>
      fst (upload_route env req w)
        = \<lparr> statusCode = 200,
            body = Analyzed ''File uploaded and analyzed successfully'' f
              (Json (JArray [JObject [(''label'', JString (''Error: '' @ message e)),
                                      (''confidence'', JNumber 0)]])) \<rparr>"
    by (simp add: upload_route_body analyzeImage_cases(2) error_detection_def)
  have e3: "req_file req = Some f \<longrightarrow> readFile w (path f) = Inr bytes \<longrightarrow>
      openai_create env (''data:image/jpeg;base64,'' @ base64 bytes) = Inr content \<longrightarrow>
      extractJsonFromResponse content = Inr r \<longrightarrow>
      fst (upload_route env req w)
        = \<lparr> statusCode = 200,
            body = Analyzed ''File uploaded and analyzed successfully'' f r \<rparr>"
    by (simp add: upload_route_body analyzeImage_cases(3))
  from a b c d e1 e2 e3 show ?thesis by blast
qed

theorem status_error_iff_exception_witness:
  "req_file cat_request = Some cat_png
   \<and> readFile nothing_stored (path cat_png) = Inl (ENOENT ''open'' ''uploads/1700000000000.png'')
   \<and> fst (upload_route answering cat_request nothing_stored)
       = \<lparr> statusCode = 200,
           body = Analyzed ''File uploaded and analyzed successfully'' cat_png
             (Json (JArray [JObject
                [(''label'', JString (''Error: ENOENT: no such file or directory, open ''
                     @ [squote] @ ''uploads/1700000000000.png'' @ [squote])),
                 (''confidence'', JNumber 0)]])) \<rparr>
   \<and> exception_raised answering cat_request nothing_stored
   \<and> status (body (fst (analyze_route answering cat_request nothing_stored))) = ''error''"
proof -
  have h: "req_file cat_request = Some cat_png"
    "readFile nothing_stored (path cat_png) = Inl (ENOENT ''open'' ''uploads/1700000000000.png'')"
    "exception_raised answering cat_request nothing_stored"
    by (simp_all add: cat_request_def exception_raised_def cat_png_def nothing_stored_def
        readFile_def)
  have m: "message (ENOENT ''open'' ''uploads/1700000000000.png'')
      = ''ENOENT: no such file or directory, open '' @ [squote] @ ''uploads/1700000000000.png''
        @ [squote]"
    by (simp add: ENOENT_def)
  from status_error_iff_exception
    [of answering cat_request nothing_stored cat_png
      "ENOENT ''open'' ''uploads/1700000000000.png''"]
    h m
  show ?thesis by simp
qed

text \<open>
  C4 as stated fails on the \<^verbatim>\<open>/upload\<close> route: when the stored file cannot be read,
  the encoding fails after validation, and the response is 200 with the success message
  and one Detection labelled with the error.
\<close>

theorem upload_failure_is_success_counterexample:
  "readFile nothing_stored (path cat_png)
     = Inl \<lparr> message = ''ENOENT: no such file or directory, open '' @ [squote]
                         @ ''uploads/1700000000000.png'' @ [squote],
             code = Some ''ENOENT'', response_status = None \<rparr>
   \<and> upload_route answering cat_request nothing_stored
     = (\<lparr> statusCode = 200,
          body = Analyzed ''File uploaded and analyzed successfully'' cat_png
                   (Json (JArray [JObject
                      [(''label'', JString (''Error: ENOENT: no such file or directory, open ''
                           @ [squote] @ ''uploads/1700000000000.png'' @ [squote])),
                       (''confidence'', JNumber 0)]])) \<rparr>,
        \<lparr> files = (\<lambda>p. None), events = [Responded 200] \<rparr>)"
  by (simp add: route_defs input_defs ENOENT_def)

text \<open>
  C5 (as amended). In the \<^verbatim>\<open>/analyze\<close> route, when the inference call fails with an
  upstream status code, the response carries that status code unchanged. The
  \<^verbatim>\<open>/upload\<close> route answers 200 all the same.
\<close>

theorem provider_status_passthrough:
  "req_file req = Some f \<Longrightarrow> files w (path f) = Some bytes \<Longrightarrow>
   truthy (OPENAI_API_KEY env) \<Longrightarrow>
   axios_post env (question_text req) (''data:image/jpeg;base64,'' @ base64 bytes) 30000
     = Inl e \<Longrightarrow>
   response_status e = Some st \<Longrightarrow> st \<noteq> 0 \<Longrightarrow>
   statusCode (fst (analyze_route env req w)) = st
   \<and> statusCode (fst (upload_route env req w)) = 200"
  using upload_route_file [of req f env w]
  by (auto simp: analyze_route_def analyze_try_def encodeImage_analyze_def readFile_def
      analyze_catch_def upstream_status_def respond_def Let_def split: prod.splits)

theorem provider_status_passthrough_witness:
  "req_file cat_request = Some cat_png \<and> files stored (path cat_png) = Some ''abc''
   \<and> truthy (OPENAI_API_KEY limiting)
   \<and> axios_post limiting (question_text cat_request) (''data:image/jpeg;base64,'' @ base64 ''abc'') 30000
       = Inl rate_limited
   \<and> response_status rate_limited = Some 429 \<and> (429::nat) \<noteq> 0
   \<and> statusCode (fst (analyze_route limiting cat_request stored)) = 429"
proof -
  have h: "req_file cat_request = Some cat_png" "files stored (path cat_png) = Some ''abc''"
    "truthy (OPENAI_API_KEY limiting)"
    "axios_post limiting (question_text cat_request) (''data:image/jpeg;base64,'' @ base64 ''abc'') 30000
       = Inl rate_limited"
    "response_status rate_limited = Some 429" "(429::nat) \<noteq> 0"
    by (simp_all add: input_defs truthy_def)
  from provider_status_passthrough [OF h] h show ?thesis by simp
qed

text \<open>
  C5 as stated fails on the \<^verbatim>\<open>/upload\<close> route: the provider answers 429 and the
  response is 200.
\<close>

theorem upload_swallows_429_counterexample:
  "openai_create limiting (''data:image/jpeg;base64,'' @ base64 ''abc'') = Inl rate_limited
   \<and> response_status rate_limited = Some 429
   \<and> statusCode (fst (upload_route limiting cat_request stored)) = 200"
  by (simp add: route_defs input_defs)



end
